theory Spec2Isabelle
  imports Main "HOL-Library.Sublist" "HOL-Library.List_Lexorder" "HOL-Library.Char_ord"
begin

section \<open>JavaScript string primitives used by the explorer\<close>

text \<open>
  A string is the list of its code units, and a \<open>char\<close> is a code unit below 256:
  the model covers the strings of ASCII and Latin-1 characters (\<open>U+0000\<close> to
  \<open>U+00FF\<close>). On these, \<open>toLowerCase\<close> maps \<open>A\<close>..\<open>Z\<close> and the capital
  letters \<open>U+00C0\<close>..\<open>U+00DE\<close> (all but the multiplication sign \<open>U+00D7\<close>) to
  the letter 32 places further on, and leaves every other character as it is. The
  regular expression \<open>[A-Z]\<close> matches the 26 ASCII capitals only.
\<close>

definition isUpperAZ :: "char \<Rightarrow> bool" where
  "isUpperAZ c = (c \<in> set ''ABCDEFGHIJKLMNOPQRSTUVWXYZ'')"

definition upperCaseChars :: string where
  "upperCaseChars =
     ''ABCDEFGHIJKLMNOPQRSTUVWXYZ'' @
     [CHR 0xC0, CHR 0xC1, CHR 0xC2, CHR 0xC3, CHR 0xC4, CHR 0xC5, CHR 0xC6, CHR 0xC7,
      CHR 0xC8, CHR 0xC9, CHR 0xCA, CHR 0xCB, CHR 0xCC, CHR 0xCD, CHR 0xCE, CHR 0xCF,
      CHR 0xD0, CHR 0xD1, CHR 0xD2, CHR 0xD3, CHR 0xD4, CHR 0xD5, CHR 0xD6, CHR 0xD8,
      CHR 0xD9, CHR 0xDA, CHR 0xDB, CHR 0xDC, CHR 0xDD, CHR 0xDE]"

definition lowerCaseChars :: string where
  "lowerCaseChars =
     ''abcdefghijklmnopqrstuvwxyz'' @
     [CHR 0xE0, CHR 0xE1, CHR 0xE2, CHR 0xE3, CHR 0xE4, CHR 0xE5, CHR 0xE6, CHR 0xE7,
      CHR 0xE8, CHR 0xE9, CHR 0xEA, CHR 0xEB, CHR 0xEC, CHR 0xED, CHR 0xEE, CHR 0xEF,
      CHR 0xF0, CHR 0xF1, CHR 0xF2, CHR 0xF3, CHR 0xF4, CHR 0xF5, CHR 0xF6, CHR 0xF8,
      CHR 0xF9, CHR 0xFA, CHR 0xFB, CHR 0xFC, CHR 0xFD, CHR 0xFE]"

definition toLowerChar :: "char \<Rightarrow> char" where
  "toLowerChar c =
     (case map_of (zip upperCaseChars lowerCaseChars) c of
        Some l \<Rightarrow> l
      | None \<Rightarrow> c)"

definition toLowerCase :: "string \<Rightarrow> string" where
  "toLowerCase s = map toLowerChar s"

text \<open>\<open>s.includes(sub)\<close>: \<open>sub\<close> occurs in \<open>s\<close> as a contiguous block.\<close>

fun includesStr :: "string \<Rightarrow> string \<Rightarrow> bool" where
  "includesStr [] sub = (sub = [])"
| "includesStr (c # cs) sub = (prefix sub (c # cs) \<or> includesStr cs sub)"

text \<open>
  \<open>s.split(sep)\<close> for a non-empty separator: the pieces between the non-overlapping
  occurrences of \<open>sep\<close>, scanned from the left. \<open>acc\<close> holds the current piece,
  reversed.
\<close>

function splitAcc :: "string \<Rightarrow> string \<Rightarrow> string \<Rightarrow> string list" where
  "splitAcc sep acc [] = [rev acc]"
| "splitAcc sep acc (c # cs) =
     (if sep \<noteq> [] \<and> prefix sep (c # cs)
      then rev acc # splitAcc sep [] (drop (length sep) (c # cs))
      else splitAcc sep (c # acc) cs)"
  by pat_completeness auto
termination
  by (relation "measure (\<lambda>(sep, acc, s). length s)") (auto simp: neq_Nil_conv)

definition splitStr :: "string \<Rightarrow> string \<Rightarrow> string list" where
  "splitStr sep s = splitAcc sep [] s"

subsection \<open>Small JavaScript helpers\<close>

text \<open>\<open>s.replace(/([A-Z])/g, '-$1')\<close>: a hyphen goes in front of every capital letter.\<close>

definition hyphenateCapitals :: "string \<Rightarrow> string" where
  "hyphenateCapitals s = concat (map (\<lambda>c. if isUpperAZ c then [CHR ''-'', c] else [c]) s)"

text \<open>\<open>s.replace(/^-/, '')\<close>: one leading hyphen is dropped.\<close>

fun stripLeadingHyphen :: "string \<Rightarrow> string" where
  "stripLeadingHyphen [] = []"
| "stripLeadingHyphen (c # cs) = (if c = CHR ''-'' then cs else c # cs)"

text \<open>
  \<open>Array.from(new Set(xs))\<close>: the distinct elements in the order of their first
  occurrence. \<open>seen\<close> is the set built so far.
\<close>

fun arrayFromSetAcc :: "'a list \<Rightarrow> 'a list \<Rightarrow> 'a list" where
  "arrayFromSetAcc seen [] = []"
| "arrayFromSetAcc seen (x # xs) =
     (if x \<in> set seen then arrayFromSetAcc seen xs else x # arrayFromSetAcc (seen @ [x]) xs)"

definition arrayFromSet :: "'a list \<Rightarrow> 'a list" where
  "arrayFromSet xs = arrayFromSetAcc [] xs"

text \<open>
  A value used as a condition: \<open>undefined\<close> (here \<open>None\<close>) and the empty string are
  falsy. \<open>truthy r\<close> is the result \<open>r\<close> of an \<open>Array.find\<close> as seen by
  \<open>if (r) return r\<close> and by \<open>r || null\<close>.
\<close>

fun truthy :: "string option \<Rightarrow> string option" where
  "truthy None = None"
| "truthy (Some s) = (if s = [] then None else Some s)"

section \<open>Resource slug mapper (screens/AccountDetails.tsx)\<close>

definition resourceTypeToSlug :: "string \<Rightarrow> string" where
  "resourceTypeToSlug type =
     (if type = [] then []
      else let parts = splitStr ''::'' type in
        if length parts < 2 then []
        else let module = toLowerCase (parts ! (length parts - 2));
                 typeName = parts ! (length parts - 1);
                 typeNameKebab = stripLeadingHyphen (toLowerCase (hyphenateCapitals typeName))
             in module @ ''-'' @ typeNameKebab)"

text \<open>The predicates that \<open>slugToResourceType\<close> tests on a candidate type.\<close>

definition segmentRule :: "string \<Rightarrow> string \<Rightarrow> bool" where
  "segmentRule segment type = includesStr (toLowerCase type) (toLowerCase segment)"

definition exactRule :: "string \<Rightarrow> string \<Rightarrow> bool" where
  "exactRule slug type = (resourceTypeToSlug type = slug)"

definition pledgeRule :: "string \<Rightarrow> bool" where
  "pledgeRule type =
     (includesStr (toLowerCase type) ''pledge'' \<or> includesStr (toLowerCase type) ''vouch'')"

definition feeMakerRule :: "string \<Rightarrow> bool" where
  "feeMakerRule type =
     (includesStr (toLowerCase type) ''fee'' \<and> includesStr (toLowerCase type) ''maker'')"

definition keywordRule :: "string \<Rightarrow> string \<Rightarrow> bool" where
  "keywordRule slug type =
     list_all (\<lambda>kw. includesStr (toLowerCase type) kw) (splitStr ''-'' slug)"

definition substringRule :: "string \<Rightarrow> string \<Rightarrow> bool" where
  "substringRule slug type =
     (includesStr (toLowerCase type) slug \<or> includesStr slug (toLowerCase type))"

text \<open>
  The loop over the unique segments of a slug with a repeated segment: the first
  segment for which \<open>types.find\<close> gives a truthy type decides.
\<close>

fun segmentLoop :: "string list \<Rightarrow> string list \<Rightarrow> string option" where
  "segmentLoop types [] = None"
| "segmentLoop types (segment # rest) =
     (case truthy (find (segmentRule segment) types) of
        Some t \<Rightarrow> Some t
      | None \<Rightarrow> segmentLoop types rest)"

definition repeatedSegments :: "string \<Rightarrow> bool" where
  "repeatedSegments slug =
     (includesStr slug ''-'' \<and>
      length (arrayFromSet (splitStr ''-'' slug)) < length (splitStr ''-'' slug))"

definition repeatedSegmentMatch :: "string list \<Rightarrow> string \<Rightarrow> string option" where
  "repeatedSegmentMatch types slug =
     (if repeatedSegments slug
      then segmentLoop types (arrayFromSet (splitStr ''-'' slug))
      else None)"

text \<open>The two \<open>for (const type of types)\<close> loops that return the type itself.\<close>

fun exactLoop :: "string list \<Rightarrow> string \<Rightarrow> string option" where
  "exactLoop [] slug = None"
| "exactLoop (type # rest) slug =
     (if resourceTypeToSlug type = slug then Some type else exactLoop rest slug)"

fun partialLoop :: "string list \<Rightarrow> string \<Rightarrow> string option" where
  "partialLoop [] slug = None"
| "partialLoop (type # rest) slug =
     (if includesStr (toLowerCase type) slug \<or> includesStr slug (toLowerCase type)
      then Some type else partialLoop rest slug)"

text \<open>\<open>null\<close> is \<open>None\<close>.\<close>

definition slugToResourceType :: "string list \<Rightarrow> string \<Rightarrow> string option" where
  "slugToResourceType types slug =
     (if slug = [] \<or> types = [] then None
      else case repeatedSegmentMatch types slug of
        Some t \<Rightarrow> Some t
      | None \<Rightarrow>
          (case exactLoop types slug of
             Some t \<Rightarrow> Some t
           | None \<Rightarrow>
               if slug = ''my-pledges'' then truthy (find pledgeRule types)
               else if slug = ''fee-maker'' then truthy (find feeMakerRule types)
               else (case truthy (find (keywordRule slug) types) of
                       Some t \<Rightarrow> Some t
                     | None \<Rightarrow> partialLoop types slug)))"

subsection \<open>The priority order as the specification words it\<close>

text \<open>
  The specification describes \<open>slugToResourceType\<close> as a list of rules in priority
  order: the highest-priority rule that some candidate satisfies decides, and the first
  candidate (in input order) satisfying it is returned. \<open>firstByPriority\<close> is that
  reading, written independently of the code.
\<close>

fun firstByPriority :: "('a \<Rightarrow> bool) list \<Rightarrow> 'a list \<Rightarrow> 'a option" where
  "firstByPriority [] candidates = None"
| "firstByPriority (rule # rules) candidates =
     (case find rule candidates of
        Some t \<Rightarrow> Some t
      | None \<Rightarrow> firstByPriority rules candidates)"

definition aliasRule :: "string \<Rightarrow> string \<Rightarrow> bool" where
  "aliasRule slug type =
     ((slug = ''my-pledges'' \<and> pledgeRule type) \<or> (slug = ''fee-maker'' \<and> feeMakerRule type))"

definition dedupRules :: "string \<Rightarrow> (string \<Rightarrow> bool) list" where
  "dedupRules slug =
     (if repeatedSegments slug then map segmentRule (arrayFromSet (splitStr ''-'' slug)) else [])"

text \<open>
  The rule list of the specification: the de-duplicated segments of a slug with a
  repeated segment, then (1) exact, (2) legacy alias, (3) keyword subset, (4) substring.
\<close>

definition specRules :: "string \<Rightarrow> (string \<Rightarrow> bool) list" where
  "specRules slug =
     dedupRules slug @ [exactRule slug, aliasRule slug, keywordRule slug, substringRule slug]"


section \<open>Resource categories (screens/AccountDetails.tsx)\<close>

text \<open>The \<open>if\<close> chain inside \<open>types.forEach\<close>: the category of one type.\<close>

definition categoryOf :: "string \<Rightarrow> string" where
  "categoryOf type =
     (let lowerType = toLowerCase type in
      if includesStr lowerType ''receipts'' \<or>
         includesStr lowerType ''fee_maker'' \<or>
         (includesStr lowerType ''account'' \<and> \<not> includesStr lowerType ''pledge_accounts'')
      then ''Account''
      else if includesStr lowerType ''coin'' \<or> includesStr lowerType ''wallet''
      then ''Assets''
      else if includesStr lowerType ''stake'' \<or>
              includesStr lowerType ''validator'' \<or>
              includesStr lowerType ''jail'' \<or>
              includesStr lowerType ''proof_of_fee''
      then ''Validating''
      else if includesStr lowerType ''pledge'' \<or>
              includesStr lowerType ''vouch'' \<or>
              includesStr lowerType ''ancestry''
      then ''Social''
      else ''Other'')"

text \<open>
  A JavaScript \<open>Map\<close> and an object used as a record both keep their keys in
  insertion order, so both are association lists here. \<open>mapSet\<close> is \<open>Map.set\<close>:
  an existing key keeps its place.
\<close>

fun mapSet :: "('k \<times> 'v) list \<Rightarrow> 'k \<Rightarrow> 'v \<Rightarrow> ('k \<times> 'v) list" where
  "mapSet [] k v = [(k, v)]"
| "mapSet ((k', v') # m) k v = (if k' = k then (k, v) # m else (k', v') # mapSet m k v)"

text \<open>
  \<open>if (!categories[category]) categories[category] = []; categories[category].push(type)\<close>
\<close>

fun pushType :: "(string \<times> string list) list \<Rightarrow> string \<Rightarrow> string \<Rightarrow> (string \<times> string list) list" where
  "pushType [] category type = [(category, [type])]"
| "pushType ((c, ts) # cs) category type =
     (if c = category then (c, ts @ [type]) # cs else (c, ts) # pushType cs category type)"

text \<open>\<open>delete categories[k]\<close>\<close>

definition deleteKey :: "string \<Rightarrow> (string \<times> 'v) list \<Rightarrow> (string \<times> 'v) list" where
  "deleteKey k cs = filter (\<lambda>(c, _). c \<noteq> k) cs"

text \<open>
  \<open>Array.prototype.sort()\<close> without a comparator orders strings by their code units,
  the lexicographic order of the character lists; equal strings are identical, so the
  sorted list is the one \<open>sort\<close> gives.
\<close>

definition categorizeResourceTypes :: "string list \<Rightarrow> (string \<times> string list) list" where
  "categorizeResourceTypes types =
     (let categoryMapping = foldl (\<lambda>m type. mapSet m type (categoryOf type)) [] types;
          grouped = foldl (\<lambda>cs (type, category). pushType cs category type) [] categoryMapping;
          categories = map (\<lambda>(category, ts). (category, sort ts)) grouped;
          pruned = (case map_of categories ''Other'' of
                      Some ts \<Rightarrow> if length ts = 0 then deleteKey ''Other'' categories
                                 else categories
                    | None \<Rightarrow> categories)
      in case map_of pruned ''Other'' of
           Some otherTypes \<Rightarrow>
             if length pruned > 1
             then deleteKey ''Other'' pruned @ [(''Other'', otherTypes)]
             else pruned
         | None \<Rightarrow> pruned)"

section \<open>Search bar (components/SearchBar.tsx)\<close>

text \<open>
  \<open>String.prototype.trim\<close> removes white space and line terminators at both ends;
  among the code units below 256 these are tab, line feed, vertical tab, form feed,
  carriage return, space and the no-break space \<open>U+00A0\<close>.
\<close>

definition isWhiteSpace :: "char \<Rightarrow> bool" where
  "isWhiteSpace c =
     (c \<in> set [CHR 0x09, CHR 0x0A, CHR 0x0B, CHR 0x0C, CHR 0x0D, CHR '' '', CHR 0xA0])"

definition trim :: "string \<Rightarrow> string" where
  "trim s = rev (dropWhile isWhiteSpace (rev (dropWhile isWhiteSpace s)))"

text \<open>
  What a thrown value is to the \<open>catch\<close> blocks: an \<open>Error\<close> object with its
  message, or some other value. A promise settles by being fulfilled or rejected.
\<close>

datatype thrown = ErrorObject string | OtherValue

datatype 'a settled = Fulfilled 'a | RejectedWith thrown

text \<open>The SDK calls that the hooks and the search bar make, as they appear in a call log.\<close>

datatype sdkCall =
    GetTransactions nat
  | GetLatestBlockHeight
  | GetLatestEpoch
  | GetChainId
  | GetAccount string
  | GetTransactionByHash string

text \<open>
  The two lookups of the SDK that the search bar uses. The SDK is an external
  collaborator: its answers are parameters. A lookup answers with an object
  (\<open>Some\<close>), with \<open>null\<close> (\<open>None\<close>), or rejects.
\<close>

record ('account, 'txDetails) searchSdk =
  getAccount :: "string \<Rightarrow> 'account option settled"
  getTransactionByHash :: "string \<Rightarrow> 'txDetails option settled"

text \<open>The component state of \<open>SearchBar\<close>.\<close>

record searchBar =
  searchQuery :: string
  isSearching :: bool
  error :: "string option"

text \<open>
  What one run of \<open>handleSearch\<close> leaves behind: the component state after all its
  state updates, the SDK calls it made and the routes it pushed, both in order.
\<close>

record searchOutcome =
  finalState :: searchBar
  sdkCalls :: "sdkCall list"
  pushed :: "string list"

text \<open>
  The second half of the \<open>try\<close> block, from \<open>sdk.getTransactionByHash\<close> on, with
  the \<open>catch\<close> and \<open>finally\<close> blocks applied. \<open>calls\<close> are the SDK calls made
  before it.
\<close>

definition transactionLookup ::
  "('account, 'txDetails) searchSdk \<Rightarrow> string \<Rightarrow> searchBar \<Rightarrow> sdkCall list \<Rightarrow> searchOutcome" where
  "transactionLookup sdk query st calls =
     (case getTransactionByHash sdk query of
        Fulfilled (Some txDetails) \<Rightarrow>
          \<lparr>finalState = st\<lparr>searchQuery := [], isSearching := False\<rparr>,
           sdkCalls = calls @ [GetTransactionByHash query],
           pushed = [''/tx/'' @ query]\<rparr>
      | Fulfilled None \<Rightarrow>
          \<lparr>finalState = st\<lparr>error := Some ''No account or transaction found with this identifier'',
                            isSearching := False\<rparr>,
           sdkCalls = calls @ [GetTransactionByHash query],
           pushed = []\<rparr>
      | RejectedWith err \<Rightarrow>
          \<lparr>finalState = st\<lparr>error := Some ''Error performing search'', isSearching := False\<rparr>,
           sdkCalls = calls @ [GetTransactionByHash query],
           pushed = []\<rparr>)"

text \<open>
  \<open>isValidAddressFormat\<close> comes from utils/addressUtils, which is not among the
  sources; it is a parameter. \<open>animateButton\<close> touches neither the component state
  nor the SDK nor the router and is left out.
\<close>

definition handleSearch ::
  "(string \<Rightarrow> bool) \<Rightarrow> ('account, 'txDetails) searchSdk \<Rightarrow> searchBar \<Rightarrow> searchOutcome" where
  "handleSearch isValidAddressFormat sdk st =
     (if trim (searchQuery st) = [] then \<lparr>finalState = st, sdkCalls = [], pushed = []\<rparr>
      else
        let st1 = st\<lparr>isSearching := True, error := None\<rparr>;
            query = trim (searchQuery st)
        in if isValidAddressFormat query
           then (case getAccount sdk query of
                   Fulfilled (Some accountData) \<Rightarrow>
                     \<lparr>finalState = st1\<lparr>searchQuery := [], isSearching := False\<rparr>,
                      sdkCalls = [GetAccount query],
                      pushed = [''/account/'' @ query]\<rparr>
                 | Fulfilled None \<Rightarrow> transactionLookup sdk query st1 [GetAccount query]
                 | RejectedWith err \<Rightarrow>
                     \<lparr>finalState = st1\<lparr>error := Some ''Error performing search'',
                                        isSearching := False\<rparr>,
                      sdkCalls = [GetAccount query],
                      pushed = []\<rparr>)
           else transactionLookup sdk query st1 [])"

text \<open>
  Modelled from the spec: \<open>isValidAddressFormat\<close> (utils/addressUtils) is missing from
  the sources. The specification says that it rejects strings containing non-hex
  characters or of a wrong length; the length ranges are not given there. This stand-in,
  used only to have a concrete format check in examples, accepts the non-empty strings of
  hex digits, after an optional \<open>0x\<close>, and rejects every other string.
\<close>

definition isHexDigit :: "char \<Rightarrow> bool" where
  "isHexDigit c = (c \<in> set ''0123456789abcdefABCDEF'')"

definition hexAddressFormat :: "string \<Rightarrow> bool" where
  "hexAddressFormat s =
     (let body = (if prefix ''0x'' s then drop 2 s else s)
      in body \<noteq> [] \<and> list_all isHexDigit body)"

section \<open>The blockchain store\<close>

text \<open>
  Modelled from the spec: store/blockchainStore (\<open>blockchainStore\<close> and
  \<open>blockchainActions\<close>) is not among the sources; only its callers are. The
  specification says that the store holds the blockchain stats, the transaction list, a
  loading flag, an error message and the transaction limit, and that
  \<open>setTransactions\<close>, \<open>setStats\<close>, \<open>setLoading\<close> and \<open>setError\<close> are
  atomic whole-field replacements. The stats are \<open>null\<close> until the first refresh
  (the stats view tests them against \<open>null\<close>). \<open>forceUpdate\<close> is not described
  there: it is taken to bump an update counter that no data field depends on.
\<close>

record blockchainStats =
  blockHeight :: "int option"
  epoch :: "int option"
  chainId :: "string option"

record 'tx blockchainStore =
  stats :: blockchainStats
  transactions :: "'tx list"
  storeIsLoading :: bool
  storeError :: "string option"
  currentLimit :: "nat option"
  updateCounter :: nat

definition setTransactions :: "'tx list \<Rightarrow> 'tx blockchainStore \<Rightarrow> 'tx blockchainStore" where
  "setTransactions list s = s\<lparr>transactions := list\<rparr>"

definition setStats :: "blockchainStats \<Rightarrow> 'tx blockchainStore \<Rightarrow> 'tx blockchainStore" where
  "setStats newStats s = s\<lparr>stats := newStats\<rparr>"

definition setLoading :: "bool \<Rightarrow> 'tx blockchainStore \<Rightarrow> 'tx blockchainStore" where
  "setLoading b s = s\<lparr>storeIsLoading := b\<rparr>"

definition setError :: "string option \<Rightarrow> 'tx blockchainStore \<Rightarrow> 'tx blockchainStore" where
  "setError msg s = s\<lparr>storeError := msg\<rparr>"

definition forceUpdate :: "'tx blockchainStore \<Rightarrow> 'tx blockchainStore" where
  "forceUpdate s = s\<lparr>updateCounter := Suc (updateCounter s)\<rparr>"

definition initialStore :: "'tx blockchainStore" where
  "initialStore =
     \<lparr>stats = \<lparr>blockHeight = None, epoch = None, chainId = None\<rparr>,
      transactions = [], storeIsLoading = False, storeError = None,
      currentLimit = None, updateCounter = 0\<rparr>"

section \<open>The useBlockchain hook (src/unnamed/part_000)\<close>

text \<open>
  The variables of the hook body that \<open>refreshData\<close> reads. Within one render they
  are constants, and the \<open>refreshData\<close> created by that render closes over them;
  \<open>setIsLoading\<close> and \<open>setFetchRequested\<close> change the values that the next
  render will read, not the ones a closure already holds.
\<close>

record hookVars =
  isInitialized :: bool
  isLoading :: bool
  fetchRequested :: bool

text \<open>
  The state shared by all invocations: the current values of the hook's state
  (\<open>hook\<close>), the store, the SDK calls issued so far (oldest first) and the closure
  held by the 30 second interval, if one is set.
\<close>

record 'tx world =
  hook :: hookVars
  store :: "'tx blockchainStore"
  issued :: "sdkCall list"
  interval :: "hookVars option"

text \<open>
  \<open>refreshData\<close> is an \<open>async\<close> function. An invocation runs up to its next
  \<open>await\<close>, and is resumed when the awaited promise settles; \<open>phase\<close> says where
  an invocation is suspended. At the second \<open>await\<close> the three stats promises of
  \<open>Promise.all\<close> are outstanding together; the slots hold the values that have
  arrived.
\<close>

datatype phase =
    AwaitTransactions
  | AwaitStats "int option" "int option" "string option"
  | Returned

datatype 'tx response =
    TransactionsResponse "'tx list settled"
  | BlockHeightResponse "int settled"
  | EpochResponse "int settled"
  | ChainIdResponse "string settled"

text \<open>
  \<open>blockchainStore.currentLimit?.get() || appConfig.transactions.defaultLimit\<close>:
  a missing or zero limit gives the default. config/appConfig is not among the
  sources; the default limit is a parameter.
\<close>

definition transactionLimit :: "nat \<Rightarrow> 'tx blockchainStore \<Rightarrow> nat" where
  "transactionLimit defaultLimit s =
     (case currentLimit s of
        Some n \<Rightarrow> if n = 0 then defaultLimit else n
      | None \<Rightarrow> defaultLimit)"

text \<open>\<open>error instanceof Error ? error.message : 'Unknown error occurred'\<close>\<close>

fun errorMessage :: "thrown \<Rightarrow> string" where
  "errorMessage (ErrorObject message) = message"
| "errorMessage OtherValue = ''Unknown error occurred''"

definition catchBlock :: "thrown \<Rightarrow> 'tx world \<Rightarrow> 'tx world" where
  "catchBlock err w = w\<lparr>store := setError (Some (errorMessage err)) (store w)\<rparr>"

definition finallyBlock :: "'tx world \<Rightarrow> 'tx world" where
  "finallyBlock w =
     w\<lparr>hook := (hook w)\<lparr>isLoading := False, fetchRequested := False\<rparr>,
       store := setLoading False (store w)\<rparr>"

text \<open>
  A call of \<open>refreshData\<close>, up to \<open>await sdk.getTransactions(...)\<close>. \<open>captured\<close>
  are the hook variables of the render that created this \<open>refreshData\<close>.
\<close>

definition refreshData :: "nat \<Rightarrow> hookVars \<Rightarrow> 'tx world \<Rightarrow> phase \<times> 'tx world" where
  "refreshData defaultLimit captured w =
     (if \<not> isInitialized captured then (Returned, w)
      else if isLoading captured \<or> fetchRequested captured then (Returned, w)
      else
        let w1 = w\<lparr>hook := (hook w)\<lparr>isLoading := True, fetchRequested := True\<rparr>,
                    store := setLoading True (store w)\<rparr>;
            currentTransactionLimit = transactionLimit defaultLimit (store w1)
        in (AwaitTransactions,
            w1\<lparr>issued := issued w1 @ [GetTransactions currentTransactionLimit]\<rparr>))"

text \<open>
  The end of \<open>Promise.all\<close>: when the three values are there, the invocation goes on
  with \<open>setStats\<close>, \<open>forceUpdate\<close> and the \<open>finally\<close> block.
\<close>

fun allFulfilled :: "phase \<times> 'tx world \<Rightarrow> phase \<times> 'tx world" where
  "allFulfilled (AwaitStats (Some h) (Some e) (Some c), w) =
     (Returned,
      finallyBlock
        (w\<lparr>store := forceUpdate
             (setStats \<lparr>blockHeight = Some h, epoch = Some e, chainId = Some c\<rparr> (store w))\<rparr>))"
| "allFulfilled pw = pw"

text \<open>
  A promise settles and the invocation suspended on it goes on. A rejection goes to the
  \<open>catch\<close> and \<open>finally\<close> blocks. A response that the invocation is not waiting
  for (the promise has settled before, or the invocation has returned) changes nothing.
\<close>

fun resume :: "'tx response \<Rightarrow> phase \<times> 'tx world \<Rightarrow> phase \<times> 'tx world" where
  "resume (TransactionsResponse (Fulfilled list)) (AwaitTransactions, w) =
     (AwaitStats None None None,
      w\<lparr>store := setTransactions list (store w),
        issued := issued w @ [GetLatestBlockHeight, GetLatestEpoch, GetChainId]\<rparr>)"
| "resume (TransactionsResponse (RejectedWith err)) (AwaitTransactions, w) =
     (Returned, finallyBlock (catchBlock err w))"
| "resume (BlockHeightResponse (Fulfilled v)) (AwaitStats None e c, w) =
     allFulfilled (AwaitStats (Some v) e c, w)"
| "resume (BlockHeightResponse (RejectedWith err)) (AwaitStats None e c, w) =
     (Returned, finallyBlock (catchBlock err w))"
| "resume (EpochResponse (Fulfilled v)) (AwaitStats h None c, w) =
     allFulfilled (AwaitStats h (Some v) c, w)"
| "resume (EpochResponse (RejectedWith err)) (AwaitStats h None c, w) =
     (Returned, finallyBlock (catchBlock err w))"
| "resume (ChainIdResponse (Fulfilled v)) (AwaitStats h e None, w) =
     allFulfilled (AwaitStats h e (Some v), w)"
| "resume (ChainIdResponse (RejectedWith err)) (AwaitStats h e None, w) =
     (Returned, finallyBlock (catchBlock err w))"
| "resume r pw = pw"

fun deliver :: "'tx response list \<Rightarrow> phase \<times> 'tx world \<Rightarrow> phase \<times> 'tx world" where
  "deliver [] pw = pw"
| "deliver (r # rs) pw = deliver rs (resume r pw)"

text \<open>
  The answers of the SDK to the calls of \<open>refreshData\<close> (parameters: the SDK is
  external), and one whole refresh cycle against them: the call, then the transactions
  answer, then, if the stats calls were issued, their answers.
\<close>

record 'tx blockchainSdk =
  getTransactions :: "nat \<Rightarrow> 'tx list settled"
  getLatestBlockHeight :: "int settled"
  getLatestEpoch :: "int settled"
  getChainId :: "string settled"

definition refreshCycle :: "'tx blockchainSdk \<Rightarrow> nat \<Rightarrow> hookVars \<Rightarrow> 'tx world \<Rightarrow> 'tx world" where
  "refreshCycle sdk defaultLimit captured w =
     (case refreshData defaultLimit captured w of
        (Returned, w1) \<Rightarrow> w1
      | (ph, w1) \<Rightarrow>
          (case resume (TransactionsResponse
                          (getTransactions sdk (transactionLimit defaultLimit (store w1))))
                  (ph, w1) of
             (Returned, w2) \<Rightarrow> w2
           | pw2 \<Rightarrow>
               snd (deliver [BlockHeightResponse (getLatestBlockHeight sdk),
                             EpochResponse (getLatestEpoch sdk),
                             ChainIdResponse (getChainId sdk)] pw2)))"

text \<open>
  The effect that sets the interval (dependencies: \<open>isInitialized\<close> only) stores the
  \<open>refreshData\<close> of the render it runs in; a tick calls that closure; the cleanup on
  unmount clears the interval.
\<close>

definition intervalEffect :: "hookVars \<Rightarrow> 'tx world \<Rightarrow> 'tx world" where
  "intervalEffect captured w = (if isInitialized captured then w\<lparr>interval := Some captured\<rparr> else w)"

definition tick :: "nat \<Rightarrow> 'tx world \<Rightarrow> phase \<times> 'tx world" where
  "tick defaultLimit w =
     (case interval w of
        None \<Rightarrow> (Returned, w)
      | Some captured \<Rightarrow> refreshData defaultLimit captured w)"

definition unmount :: "'tx world \<Rightarrow> 'tx world" where
  "unmount w = w\<lparr>interval := None\<rparr>"

text \<open>
  The invariant of one refresh cycle that starts with stats \<open>old\<close> and call log
  \<open>log\<close>, after the responses \<open>seen\<close>: the stats are \<open>old\<close> until the cycle
  returns, and are then \<open>old\<close> or made of three values that arrived in this cycle;
  the stats calls are issued all three or not at all.
\<close>

fun cycleInvariant ::
  "blockchainStats \<Rightarrow> sdkCall list \<Rightarrow> nat \<Rightarrow> 'tx response set \<Rightarrow> phase \<times> 'tx world \<Rightarrow> bool" where
  "cycleInvariant old log n seen (AwaitTransactions, w) =
     (stats (store w) = old \<and> issued w = log @ [GetTransactions n])"
| "cycleInvariant old log n seen (AwaitStats h e c, w) =
     (stats (store w) = old \<and>
      issued w = log @ [GetTransactions n, GetLatestBlockHeight, GetLatestEpoch, GetChainId] \<and>
      (case h of None \<Rightarrow> True | Some v \<Rightarrow> BlockHeightResponse (Fulfilled v) \<in> seen) \<and>
      (case e of None \<Rightarrow> True | Some v \<Rightarrow> EpochResponse (Fulfilled v) \<in> seen) \<and>
      (case c of None \<Rightarrow> True | Some v \<Rightarrow> ChainIdResponse (Fulfilled v) \<in> seen))"
| "cycleInvariant old log n seen (Returned, w) =
     ((stats (store w) = old \<or>
       (\<exists>h e c. BlockHeightResponse (Fulfilled h) \<in> seen \<and>
                EpochResponse (Fulfilled e) \<in> seen \<and>
                ChainIdResponse (Fulfilled c) \<in> seen \<and>
                stats (store w) = \<lparr>blockHeight = Some h, epoch = Some e, chainId = Some c\<rparr>)) \<and>
      (issued w = log \<or> issued w = log @ [GetTransactions n] \<or>
       issued w = log @ [GetTransactions n, GetLatestBlockHeight, GetLatestEpoch, GetChainId]))"

section \<open>Manual refresh of the account screen (screens/AccountDetails.tsx)\<close>

text \<open>
  The local state of the screen that \<open>handleRefresh\<close> touches: the auto-refresh
  indicator, the \<open>isMounted\<close> ref and the pending \<open>setTimeout\<close> callbacks that
  will reset the indicator. \<open>refreshAccount\<close> (hooks/useAccount) is not among the
  sources; \<open>handleRefresh\<close> awaits it between the two parts below.
\<close>

record accountScreen =
  isAutoRefreshing :: bool
  isMounted :: bool
  pendingResets :: nat

definition handleRefreshStart :: "accountScreen \<Rightarrow> accountScreen" where
  "handleRefreshStart s = s\<lparr>isAutoRefreshing := True\<rparr>"

definition handleRefreshFinally :: "accountScreen \<Rightarrow> accountScreen" where
  "handleRefreshFinally s =
     (if isMounted s then s\<lparr>pendingResets := Suc (pendingResets s)\<rparr> else s)"

section \<open>Values for the concrete runs\<close>

text \<open>
  The render in which the SDK has become initialized and no refresh is running; a world
  whose store holds stats and one transaction from an earlier refresh; an SDK whose
  transaction fetch fails while its stats calls succeed; and a search SDK that finds
  nothing.
\<close>

definition readyClosure :: hookVars where
  "readyClosure = \<lparr>isInitialized = True, isLoading = False, fetchRequested = False\<rparr>"

definition exampleWorld :: "nat world" where
  "exampleWorld =
     \<lparr>hook = readyClosure,
      store = \<lparr>stats = \<lparr>blockHeight = Some 100, epoch = Some 3, chainId = Some ''1''\<rparr>,
               transactions = [7], storeIsLoading = False, storeError = None,
               currentLimit = None, updateCounter = 0\<rparr>,
      issued = [], interval = None\<rparr>"

definition transactionsFailSdk :: "nat blockchainSdk" where
  "transactionsFailSdk =
     \<lparr>getTransactions = (\<lambda>limit. RejectedWith (ErrorObject ''Network Error'')),
      getLatestBlockHeight = Fulfilled 101,
      getLatestEpoch = Fulfilled 4,
      getChainId = Fulfilled ''1''\<rparr>"

definition nothingFoundSdk :: "(unit, unit) searchSdk" where
  "nothingFoundSdk =
     \<lparr>getAccount = (\<lambda>address. Fulfilled None),
      getTransactionByHash = (\<lambda>hash. Fulfilled None)\<rparr>"

section \<open>Verification\<close>

subsection \<open>Splitting and searching\<close>




lemma truthy_Some: "truthy r = Some t \<Longrightarrow> r = Some t"
  by (cases r) (auto split: if_splits)

lemma find_mem: "find P xs = Some x \<Longrightarrow> x \<in> set xs"
  by (induction xs) (auto split: if_splits)

lemma truthy_find_mem: "truthy (find P xs) = Some t \<Longrightarrow> t \<in> set xs"
  using truthy_Some find_mem by metis

lemma segmentLoop_mem: "segmentLoop types segs = Some t \<Longrightarrow> t \<in> set types"
  by (induction segs) (auto split: option.splits dest: truthy_find_mem)

lemma exactLoop_find: "exactLoop types slug = find (exactRule slug) types"
  by (induction types) (auto simp: exactRule_def)

lemma partialLoop_find: "partialLoop types slug = find (substringRule slug) types"
  by (induction types) (auto simp: substringRule_def)

lemma repeatedSegmentMatch_mem: "repeatedSegmentMatch types slug = Some t \<Longrightarrow> t \<in> set types"
  by (auto simp: repeatedSegmentMatch_def split: if_splits dest: segmentLoop_mem)





























subsection \<open>Claims about the resource slug mapper\<close>

text \<open>
  Claim C9. For every candidate list \<open>types\<close> and every \<open>slug\<close>,
  \<open>slugToResourceType\<close> returns \<open>null\<close> or an element of \<open>types\<close>: it never
  makes up a type string.
\<close>

theorem slugToResourceType_member:
  "(case slugToResourceType types slug of None \<Rightarrow> True | Some t \<Rightarrow> t \<in> set types)"
proof (cases "slugToResourceType types slug")
  case None
  then show ?thesis by simp
next
  case (Some t)
  have "t \<in> set types"
  proof (cases "repeatedSegmentMatch types slug")
    case rs: (Some u)
    with Some have "u = t" by (simp add: slugToResourceType_def split: if_splits)
    with rs show ?thesis by (auto dest: repeatedSegmentMatch_mem)
  next
    case rn: None
    show ?thesis
    proof (cases "exactLoop types slug")
      case ex: (Some u)
      with Some rn have "u = t" by (simp add: slugToResourceType_def split: if_splits)
      with ex show ?thesis by (auto simp: exactLoop_find dest: find_mem)
    next
      case en: None
      from Some rn en have
        "truthy (find pledgeRule types) = Some t \<or> truthy (find feeMakerRule types) = Some t \<or>
         truthy (find (keywordRule slug) types) = Some t \<or> partialLoop types slug = Some t"
        by (simp add: slugToResourceType_def split: if_splits option.splits)
      then show ?thesis
        by (auto simp: partialLoop_find dest: truthy_find_mem find_mem)
    qed
  qed
  with Some show ?thesis by simp
qed





text \<open>
  The rule list of the specification keeps the rules (3) and (4) after the alias. The two
  lists, and the code, differ only on inputs that the screen never passes: a candidate
  that is not of the form \<open>module::Type\<close> (here \<open>my\<close>, which the slug
  \<open>my-pledges\<close> contains), the empty slug, and a candidate that is the empty string.
\<close>

lemma slugToResourceType_short_candidate_example:
  "slugToResourceType [''my''] ''my-pledges'' = None \<and>
   firstByPriority (specRules ''my-pledges'') [''my''] = Some ''my''"
  by code_simp

lemma slugToResourceType_empty_slug_example:
  "slugToResourceType [''foo''] [] = None \<and>
   firstByPriority (specRules []) [''foo''] = Some ''foo''"
  by code_simp

lemma slugToResourceType_empty_candidate_example:
  "slugToResourceType [[], ''::''] ''-'' = Some ''::'' \<and>
   firstByPriority (specRules ''-'') [[], ''::''] = Some []"
  by code_simp











subsection \<open>Grouping resource types by category\<close>

lemma mapSet_keys:
  "map fst (mapSet m k v) = (if k \<in> set (map fst m) then map fst m else map fst m @ [k])"
  by (induction m k v rule: mapSet.induct) auto

lemma mapSet_entries: "p \<in> set (mapSet m k v) \<Longrightarrow> p \<in> set m \<or> p = (k, v)"
  by (induction m k v rule: mapSet.induct) (auto split: if_splits)

lemma categoryMapping_inv:
  assumes "distinct (map fst m)" and "\<forall>p \<in> set m. snd p = categoryOf (fst p)"
  shows "distinct (map fst (foldl (\<lambda>m type. mapSet m type (categoryOf type)) m types)) \<and>
         set (map fst (foldl (\<lambda>m type. mapSet m type (categoryOf type)) m types))
           = set (map fst m) \<union> set types \<and>
         (\<forall>p \<in> set (foldl (\<lambda>m type. mapSet m type (categoryOf type)) m types).
            snd p = categoryOf (fst p))"
  using assms
proof (induction types arbitrary: m)
  case Nil
  then show ?case by simp
next
  case (Cons t ts)
  let ?m = "mapSet m t (categoryOf t)"
  have d: "distinct (map fst ?m)" using Cons.prems(1) by (simp add: mapSet_keys)
  have c: "\<forall>p \<in> set ?m. snd p = categoryOf (fst p)"
    using Cons.prems(2) mapSet_entries [of _ m t "categoryOf t"] by fastforce
  have k: "set (map fst ?m) = insert t (set (map fst m))"
    by (auto simp: mapSet_keys)
  from Cons.IH [OF d c] k show ?case by auto
qed

lemma pushType_keys:
  "map fst (pushType cs c t) = (if c \<in> set (map fst cs) then map fst cs else map fst cs @ [c])"
  by (induction cs c t rule: pushType.induct) auto

lemma pushType_map_of:
  "map_of (pushType cs c t) =
     (map_of cs)(c \<mapsto> (case map_of cs c of None \<Rightarrow> [t] | Some ts \<Rightarrow> ts @ [t]))"
  by (induction cs c t rule: pushType.induct) (auto simp: fun_eq_iff)

lemma grouped_distinct:
  "distinct (map fst (foldl (\<lambda>cs (type, category). pushType cs category type) [] m))"
  by (induction m rule: rev_induct) (auto simp: pushType_keys split: prod.splits)

lemma grouped_map_of:
  "map_of (foldl (\<lambda>cs (type, category). pushType cs category type) [] m) c =
     (if map fst (filter (\<lambda>p. snd p = c) m) = [] then None
      else Some (map fst (filter (\<lambda>p. snd p = c) m)))"
proof (induction m rule: rev_induct)
  case Nil
  then show ?case by simp
next
  case (snoc p m)
  obtain t c' where p: "p = (t, c')" by (cases p)
  show ?case using snoc p by (auto simp: pushType_map_of)
qed

lemma if_mem: "x \<in> S \<Longrightarrow> y \<in> S \<Longrightarrow> (if b then x else y) \<in> S"
  by simp

lemma categoryOf_range:
  "categoryOf t \<in> {''Account'', ''Assets'', ''Validating'', ''Social'', ''Other''}"
  unfolding categoryOf_def Let_def
  by (intro if_mem) simp_all

lemma deleteKey_set: "set (deleteKey k cs) = {p \<in> set cs. fst p \<noteq> k}"
  by (auto simp: deleteKey_def)

lemma deleteKey_keys: "map fst (deleteKey k cs) = filter (\<lambda>c. c \<noteq> k) (map fst cs)"
  by (induction cs) (auto simp: deleteKey_def)

lemma deleteKey_append_last:
  assumes "distinct (map fst cs)" and "map_of cs k = Some v"
  shows "set (deleteKey k cs @ [(k, v)]) = set cs"
    and "distinct (map fst (deleteKey k cs @ [(k, v)]))"
proof -
  have mem: "(k, v) \<in> set cs" using assms(2) by (rule map_of_SomeD)
  have uniq: "v' = v" if "(k, v') \<in> set cs" for v'
  proof -
    have "map_of cs k = Some v'" using assms(1) that by (rule map_of_is_SomeI)
    with assms(2) show ?thesis by simp
  qed
  have "p \<in> set cs \<longleftrightarrow> (p \<in> set cs \<and> fst p \<noteq> k) \<or> p = (k, v)" for p
    using mem uniq [of "snd p"] by (cases p) auto
  then show "set (deleteKey k cs @ [(k, v)]) = set cs"
    by (auto simp: deleteKey_set)
  show "distinct (map fst (deleteKey k cs @ [(k, v)]))"
    using assms(1) by (simp add: deleteKey_keys)
qed

lemma categorize_characterisation:
  "\<exists>ks. distinct ks \<and> set ks = set types \<and>
     distinct (map fst (categorizeResourceTypes types)) \<and>
     (\<forall>c ms. (c, ms) \<in> set (categorizeResourceTypes types) \<longleftrightarrow>
        (ms = sort (filter (\<lambda>t. categoryOf t = c) ks) \<and> ms \<noteq> [])) \<and>
     (''Other'' \<in> set (map fst (categorizeResourceTypes types)) \<longrightarrow>
        fst (last (categorizeResourceTypes types)) = ''Other'')"
proof -
  define cm where "cm = foldl (\<lambda>m type. mapSet m type (categoryOf type)) [] types"
  define grouped where
    "grouped = foldl (\<lambda>cs (type, category). pushType cs category type) [] cm"
  define categories where "categories = map (\<lambda>(category, ts). (category, sort ts)) grouped"
  define ks where "ks = map fst cm"
  have cm: "distinct ks" "set ks = set types" "\<forall>p \<in> set cm. snd p = categoryOf (fst p)"
    using categoryMapping_inv [of "[]" types] by (simp_all add: cm_def ks_def)
  have members: "map fst (filter (\<lambda>p. snd p = c) cm) = filter (\<lambda>t. categoryOf t = c) ks" for c
  proof -
    have "filter (\<lambda>p. snd p = c) cm = filter (\<lambda>p. categoryOf (fst p) = c) cm"
      using cm(3) by (intro filter_cong) auto
    then show ?thesis by (simp add: ks_def filter_map comp_def)
  qed
  have gd: "distinct (map fst grouped)" unfolding grouped_def by (rule grouped_distinct)
  have gm: "map_of grouped c =
      (if filter (\<lambda>t. categoryOf t = c) ks = [] then None
       else Some (filter (\<lambda>t. categoryOf t = c) ks))" for c
    unfolding grouped_def grouped_map_of members by simp
  have ckeys: "map fst categories = map fst grouped"
    by (simp add: categories_def comp_def case_prod_unfold)
  have cd: "distinct (map fst categories)" using gd ckeys by simp
  have cmem: "(c, ms) \<in> set categories \<longleftrightarrow>
      (ms = sort (filter (\<lambda>t. categoryOf t = c) ks) \<and> ms \<noteq> [])" for c ms
  proof -
    have "(c, ms) \<in> set categories \<longleftrightarrow> (\<exists>ts. (c, ts) \<in> set grouped \<and> ms = sort ts)"
      by (auto simp: categories_def)
    also have "\<dots> \<longleftrightarrow> (\<exists>ts. map_of grouped c = Some ts \<and> ms = sort ts)"
      using gd by simp
    also have "\<dots> \<longleftrightarrow> (ms = sort (filter (\<lambda>t. categoryOf t = c) ks) \<and> ms \<noteq> [])"
    proof (cases "filter (\<lambda>t. categoryOf t = c) ks = []")
      case True
      then show ?thesis by (simp add: gm)
    next
      case False
      then have "sort (filter (\<lambda>t. categoryOf t = c) ks) \<noteq> []"
        by (metis length_sort length_0_conv)
      with False show ?thesis by (auto simp: gm)
    qed
    finally show ?thesis .
  qed
  have cmap: "map_of categories c = Some ms \<longleftrightarrow> (c, ms) \<in> set categories" for c ms
    using cd by simp
  define pruned where
    "pruned = (case map_of categories ''Other'' of
                 Some ts \<Rightarrow> if length ts = 0 then deleteKey ''Other'' categories else categories
               | None \<Rightarrow> categories)"
  have pruned: "pruned = categories"
  proof (cases "map_of categories ''Other''")
    case None
    then show ?thesis by (simp add: pruned_def)
  next
    case (Some ts)
    then have "ts \<noteq> []" using cmap cmem by blast
    with Some show ?thesis by (simp add: pruned_def)
  qed
  have r0: "categorizeResourceTypes types =
      (case map_of pruned ''Other'' of
         Some otherTypes \<Rightarrow>
           if length pruned > 1
           then deleteKey ''Other'' pruned @ [(''Other'', otherTypes)]
           else pruned
       | None \<Rightarrow> pruned)"
    unfolding categorizeResourceTypes_def Let_def pruned_def categories_def grouped_def cm_def
    by (rule refl)
  have r: "categorizeResourceTypes types =
      (case map_of categories ''Other'' of
         Some otherTypes \<Rightarrow>
           if length categories > 1
           then deleteKey ''Other'' categories @ [(''Other'', otherTypes)]
           else categories
       | None \<Rightarrow> categories)"
    using r0 by (simp only: pruned)
  have rset: "set (categorizeResourceTypes types) = set categories"
    unfolding r using deleteKey_append_last(1) [OF cd]
    by (auto split: option.splits)
  have rdist: "distinct (map fst (categorizeResourceTypes types))"
    unfolding r using deleteKey_append_last(2) [OF cd] cd
    by (auto split: option.splits)
  have rlast: "fst (last (categorizeResourceTypes types)) = ''Other''"
    if "''Other'' \<in> set (map fst (categorizeResourceTypes types))"
  proof -
    from that rset obtain ms where "(''Other'', ms) \<in> set categories" by auto
    then have m: "map_of categories ''Other'' = Some ms" using cmap by simp
    show ?thesis
    proof (cases "length categories > 1")
      case True
      with m show ?thesis by (simp add: r)
    next
      case False
      with \<open>(''Other'', ms) \<in> set categories\<close> have "categories = [(''Other'', ms)]"
        by (cases categories) auto
      with m show ?thesis by (simp add: r)
    qed
  qed
  show ?thesis
    using cm(1,2) rdist rset cmem rlast by blast
qed

subsection \<open>Claim about the resource categories\<close>

text \<open>
  Claim C4. \<open>categorizeResourceTypes\<close> partitions its input. The result has each
  category name at most once and only names of the fixed set; every input type is a
  member of the category that the ordered substring rules (\<open>categoryOf\<close>, first
  matching rule wins) give it, which is present in the result, and of no other; the
  union of the member lists is the input set; every member list is sorted (and has no
  duplicates); no category is present with an empty member list, so \<open>Other\<close> is
  omitted when empty; and \<open>Other\<close>, when present, is the last category.
\<close>

theorem categorizeResourceTypes_partition:
  "distinct (map fst (categorizeResourceTypes types)) \<and>
   set (map fst (categorizeResourceTypes types))
     \<subseteq> {''Account'', ''Assets'', ''Validating'', ''Social'', ''Other''} \<and>
   (\<forall>t \<in> set types. categoryOf t \<in> set (map fst (categorizeResourceTypes types))) \<and>
   (\<forall>t \<in> set types. \<forall>(c, ms) \<in> set (categorizeResourceTypes types).
      (t \<in> set ms) = (c = categoryOf t)) \<and>
   (\<Union>(c, ms) \<in> set (categorizeResourceTypes types). set ms) = set types \<and>
   (\<forall>(c, ms) \<in> set (categorizeResourceTypes types). sorted ms \<and> distinct ms \<and> ms \<noteq> []) \<and>
   (''Other'' \<in> set (map fst (categorizeResourceTypes types)) \<longrightarrow>
      fst (last (categorizeResourceTypes types)) = ''Other'')"
proof -
  let ?r = "categorizeResourceTypes types"
  obtain ks where ks: "distinct ks" "set ks = set types"
    and rd: "distinct (map fst ?r)"
    and rm: "\<And>c ms. (c, ms) \<in> set ?r \<longleftrightarrow>
        (ms = sort (filter (\<lambda>t. categoryOf t = c) ks) \<and> ms \<noteq> [])"
    and rl: "''Other'' \<in> set (map fst ?r) \<longrightarrow> fst (last ?r) = ''Other''"
    using categorize_characterisation [of types] by blast
  have mem: "set ms = {t \<in> set types. categoryOf t = c}" if "(c, ms) \<in> set ?r" for c ms
    using that rm [of c ms] ks(2) by auto
  have present: "(categoryOf t, sort (filter (\<lambda>u. categoryOf u = categoryOf t) ks)) \<in> set ?r"
    if "t \<in> set types" for t
  proof -
    have "t \<in> set (sort (filter (\<lambda>u. categoryOf u = categoryOf t) ks))"
      using that ks(2) by simp
    then have "sort (filter (\<lambda>u. categoryOf u = categoryOf t) ks) \<noteq> []"
      by (metis empty_iff list.set(1))
    then show ?thesis using rm by blast
  qed
  have keys: "set (map fst ?r) \<subseteq> {''Account'', ''Assets'', ''Validating'', ''Social'', ''Other''}"
  proof
    fix c assume "c \<in> set (map fst ?r)"
    then obtain ms where cm: "(c, ms) \<in> set ?r" by auto
    then have "ms \<noteq> []" using rm by blast
    then obtain t where "t \<in> set ms" by (cases ms) auto
    then have "categoryOf t = c" using mem [OF cm] by simp
    then show "c \<in> {''Account'', ''Assets'', ''Validating'', ''Social'', ''Other''}"
      using categoryOf_range [of t] by simp
  qed
  have pres: "\<forall>t \<in> set types. categoryOf t \<in> set (map fst ?r)"
    using present by force
  have only: "\<forall>t \<in> set types. \<forall>(c, ms) \<in> set ?r. (t \<in> set ms) = (c = categoryOf t)"
    using mem by auto
  have union: "(\<Union>(c, ms) \<in> set ?r. set ms) = set types"
  proof
    show "(\<Union>(c, ms) \<in> set ?r. set ms) \<subseteq> set types" using mem by auto
    show "set types \<subseteq> (\<Union>(c, ms) \<in> set ?r. set ms)"
    proof
      fix t assume t: "t \<in> set types"
      have "t \<in> set (sort (filter (\<lambda>u. categoryOf u = categoryOf t) ks))"
        using t ks(2) by simp
      with present [OF t] show "t \<in> (\<Union>(c, ms) \<in> set ?r. set ms)" by blast
    qed
  qed
  have sorted: "\<forall>(c, ms) \<in> set ?r. sorted ms \<and> distinct ms \<and> ms \<noteq> []"
  proof -
    have "sorted ms \<and> distinct ms \<and> ms \<noteq> []" if "(c, ms) \<in> set ?r" for c ms
      using that rm [of c ms] ks(1) by auto
    then show ?thesis by auto
  qed
  from rd keys pres only union sorted rl show ?thesis by blast
qed

theorem categorizeResourceTypes_partition_witness:
  "categorizeResourceTypes
     [''vouch::MyVouches'', ''foo::Bar'', ''coin::CoinStore'', ''account::Account'', ''foo::Bar'',
      ''ancestry::Ancestry''] =
     [(''Social'', [''ancestry::Ancestry'', ''vouch::MyVouches'']),
      (''Assets'', [''coin::CoinStore'']),
      (''Account'', [''account::Account'']),
      (''Other'', [''foo::Bar''])] \<and>
   ''Other'' \<in> set (map fst (categorizeResourceTypes
     [''vouch::MyVouches'', ''foo::Bar'', ''coin::CoinStore'', ''account::Account'', ''foo::Bar'',
      ''ancestry::Ancestry''])) \<and>
   fst (last (categorizeResourceTypes
     [''vouch::MyVouches'', ''foo::Bar'', ''coin::CoinStore'', ''account::Account'', ''foo::Bar'',
      ''ancestry::Ancestry''])) = ''Other''"
proof -
  have v: "categorizeResourceTypes
     [''vouch::MyVouches'', ''foo::Bar'', ''coin::CoinStore'', ''account::Account'', ''foo::Bar'',
      ''ancestry::Ancestry''] =
     [(''Social'', [''ancestry::Ancestry'', ''vouch::MyVouches'']),
      (''Assets'', [''coin::CoinStore'']),
      (''Account'', [''account::Account'']),
      (''Other'', [''foo::Bar''])]"
    by code_simp
  have o: "''Other'' \<in> set (map fst (categorizeResourceTypes
     [''vouch::MyVouches'', ''foo::Bar'', ''coin::CoinStore'', ''account::Account'', ''foo::Bar'',
      ''ancestry::Ancestry'']))"
    unfolding v by simp
  show ?thesis
    using categorizeResourceTypes_partition
      [of "[''vouch::MyVouches'', ''foo::Bar'', ''coin::CoinStore'', ''account::Account'',
            ''foo::Bar'', ''ancestry::Ancestry'']"] v o
    by blast
qed

subsection \<open>Claims about the search bar\<close>

lemma trim_blank: "list_all isWhiteSpace s \<Longrightarrow> trim s = []"
  by (auto simp: trim_def list_all_iff dest: set_dropWhileD)

text \<open>
  Claim C10. If the search query is empty or consists only of white space,
  \<open>handleSearch\<close> returns at once: it makes no SDK call, pushes no route, and leaves
  the error (with the rest of the component state) as it was.
\<close>

theorem handleSearch_blank_query:
  assumes "list_all isWhiteSpace (searchQuery st)"
  shows "sdkCalls (handleSearch isValidAddressFormat sdk st) = [] \<and>
         pushed (handleSearch isValidAddressFormat sdk st) = [] \<and>
         error (finalState (handleSearch isValidAddressFormat sdk st)) = error st \<and>
         finalState (handleSearch isValidAddressFormat sdk st) = st"
  using trim_blank [OF assms] by (simp add: handleSearch_def)

theorem handleSearch_blank_query_witness:
  "list_all isWhiteSpace [CHR '' '', CHR 0xA0, CHR 0x09] \<and>
   sdkCalls (handleSearch hexAddressFormat
      \<lparr>getAccount = (\<lambda>a. Fulfilled (Some a)), getTransactionByHash = (\<lambda>h. Fulfilled (Some h))\<rparr>
      \<lparr>searchQuery = [CHR '' '', CHR 0xA0, CHR 0x09], isSearching = False, error = Some ''Error performing search''\<rparr>) = [] \<and>
   pushed (handleSearch hexAddressFormat
      \<lparr>getAccount = (\<lambda>a. Fulfilled (Some a)), getTransactionByHash = (\<lambda>h. Fulfilled (Some h))\<rparr>
      \<lparr>searchQuery = [CHR '' '', CHR 0xA0, CHR 0x09], isSearching = False, error = Some ''Error performing search''\<rparr>) = [] \<and>
   error (finalState (handleSearch hexAddressFormat
      \<lparr>getAccount = (\<lambda>a. Fulfilled (Some a)), getTransactionByHash = (\<lambda>h. Fulfilled (Some h))\<rparr>
      \<lparr>searchQuery = [CHR '' '', CHR 0xA0, CHR 0x09], isSearching = False, error = Some ''Error performing search''\<rparr>))
     = Some ''Error performing search''"
proof -
  have h: "list_all isWhiteSpace (searchQuery
      \<lparr>searchQuery = [CHR '' '', CHR 0xA0, CHR 0x09], isSearching = False, error = Some ''Error performing search''\<rparr>)"
    by (simp add: isWhiteSpace_def)
  show ?thesis
    using handleSearch_blank_query [OF h, of hexAddressFormat
      "\<lparr>getAccount = (\<lambda>a. Fulfilled (Some a)), getTransactionByHash = (\<lambda>h. Fulfilled (Some h))\<rparr>"] h
    by simp
qed

text \<open>
  The account lookup is behind the format check: for the query \<open>hello world\<close>, which
  is no address, the transaction lookup is the only SDK call.
\<close>

lemma handleSearch_no_address_example:
  "\<not> hexAddressFormat ''hello world'' \<and>
   sdkCalls (handleSearch hexAddressFormat nothingFoundSdk
      \<lparr>searchQuery = ''hello world'', isSearching = False, error = None\<rparr>)
     = [GetTransactionByHash ''hello world'']"
  by (simp add: handleSearch_def transactionLookup_def trim_def isWhiteSpace_def
      hexAddressFormat_def isHexDigit_def nothingFoundSdk_def)

text \<open>
  Whatever the SDK answers, \<open>handleSearch\<close> makes no SDK call but the two lookups
  of the trimmed query, the account lookup first.
\<close>

lemma handleSearch_calls:
  "sdkCalls (handleSearch isValidAddressFormat sdk st) \<in>
     {[], [GetAccount (trim (searchQuery st))],
      [GetTransactionByHash (trim (searchQuery st))],
      [GetAccount (trim (searchQuery st)), GetTransactionByHash (trim (searchQuery st))]}"
  by (simp add: handleSearch_def transactionLookup_def Let_def
      split: settled.splits option.splits)

text \<open>
  Claim C7. For a non-blank search query, trimmed to \<open>q\<close>, on which the lookups
  find nothing, as for a query that matches neither the address format nor the
  transaction hash format: \<open>handleSearch\<close> goes through the account lookup (made
  when \<open>q\<close> has the address format; a malformed address is rejected before any
  call) and then the transaction lookup; a \<open>null\<close> answer of the account lookup is
  not an error but is followed by the transaction lookup; and when every lookup made
  has answered \<open>null\<close>, the error is exactly
  \<open>No account or transaction found with this identifier\<close>, no route is pushed, and
  no SDK call has been made beyond the two lookups.
\<close>

theorem handleSearch_not_found:
  assumes "trim (searchQuery st) \<noteq> []"
    and "isValidAddressFormat (trim (searchQuery st)) \<longrightarrow>
           getAccount sdk (trim (searchQuery st)) = Fulfilled None"
    and "getTransactionByHash sdk (trim (searchQuery st)) = Fulfilled None"
  shows "sdkCalls (handleSearch isValidAddressFormat sdk st) =
           (if isValidAddressFormat (trim (searchQuery st))
            then [GetAccount (trim (searchQuery st))] else []) @
           [GetTransactionByHash (trim (searchQuery st))] \<and>
         set (sdkCalls (handleSearch isValidAddressFormat sdk st)) \<subseteq>
           {GetAccount (trim (searchQuery st)), GetTransactionByHash (trim (searchQuery st))} \<and>
         pushed (handleSearch isValidAddressFormat sdk st) = [] \<and>
         error (finalState (handleSearch isValidAddressFormat sdk st)) =
           Some ''No account or transaction found with this identifier'' \<and>
         \<not> isSearching (finalState (handleSearch isValidAddressFormat sdk st))"
  using assms by (simp add: handleSearch_def transactionLookup_def Let_def)

theorem handleSearch_not_found_witness:
  "trim (searchQuery \<lparr>searchQuery = '' hello world '', isSearching = False, error = None\<rparr>) \<noteq> [] \<and>
   \<not> hexAddressFormat ''hello world'' \<and>
   sdkCalls (handleSearch hexAddressFormat
      nothingFoundSdk
      \<lparr>searchQuery = '' hello world '', isSearching = False, error = None\<rparr>)
     = [GetTransactionByHash ''hello world''] \<and>
   error (finalState (handleSearch hexAddressFormat
      nothingFoundSdk
      \<lparr>searchQuery = '' hello world '', isSearching = False, error = None\<rparr>))
     = Some ''No account or transaction found with this identifier'' \<and>
   hexAddressFormat ''0x1f'' \<and>
   sdkCalls (handleSearch hexAddressFormat
      nothingFoundSdk
      \<lparr>searchQuery = ''0x1f'', isSearching = False, error = None\<rparr>)
     = [GetAccount ''0x1f'', GetTransactionByHash ''0x1f''] \<and>
   error (finalState (handleSearch hexAddressFormat
      nothingFoundSdk
      \<lparr>searchQuery = ''0x1f'', isSearching = False, error = None\<rparr>))
     = Some ''No account or transaction found with this identifier''"
proof -
  let ?sdk = "nothingFoundSdk"
  let ?st1 = "\<lparr>searchQuery = '' hello world '', isSearching = False, error = None\<rparr>"
  let ?st2 = "\<lparr>searchQuery = ''0x1f'', isSearching = False, error = None\<rparr>"
  have t1: "trim (searchQuery ?st1) = ''hello world''"
    by (simp add: trim_def isWhiteSpace_def)
  have t2: "trim (searchQuery ?st2) = ''0x1f''"
    by (simp add: trim_def isWhiteSpace_def)
  have f1: "\<not> hexAddressFormat ''hello world''"
    by (simp add: hexAddressFormat_def isHexDigit_def)
  have f2: "hexAddressFormat ''0x1f''"
    by (simp add: hexAddressFormat_def isHexDigit_def)
  have n1: "trim (searchQuery ?st1) \<noteq> []" and n2: "trim (searchQuery ?st2) \<noteq> []"
    by (simp_all only: t1 t2) simp_all
  have a1: "hexAddressFormat (trim (searchQuery ?st1)) \<longrightarrow>
      getAccount ?sdk (trim (searchQuery ?st1)) = Fulfilled None"
    by (simp add: nothingFoundSdk_def)
  have a2: "hexAddressFormat (trim (searchQuery ?st2)) \<longrightarrow>
      getAccount ?sdk (trim (searchQuery ?st2)) = Fulfilled None"
    by (simp add: nothingFoundSdk_def)
  have b1: "getTransactionByHash ?sdk (trim (searchQuery ?st1)) = Fulfilled None"
    by (simp add: nothingFoundSdk_def)
  have b2: "getTransactionByHash ?sdk (trim (searchQuery ?st2)) = Fulfilled None"
    by (simp add: nothingFoundSdk_def)
  show ?thesis
    using handleSearch_not_found
        [where st = ?st1 and isValidAddressFormat = hexAddressFormat and sdk = ?sdk, OF n1 a1 b1]
      handleSearch_not_found
        [where st = ?st2 and isValidAddressFormat = hexAddressFormat and sdk = ?sdk, OF n2 a2 b2]
      n1 f1 f2
    unfolding t1 t2 by simp
qed

subsection \<open>Claims about the refresh of the blockchain data\<close>

lemmas storeActions =
  setTransactions_def setStats_def setLoading_def setError_def forceUpdate_def

lemma transactionLimit_setLoading:
  "transactionLimit defaultLimit (setLoading b s) = transactionLimit defaultLimit s"
  by (simp add: transactionLimit_def setLoading_def)

lemma refreshData_proceeds:
  assumes "isInitialized captured" and "\<not> isLoading captured" and "\<not> fetchRequested captured"
  shows "refreshData defaultLimit captured w =
    (AwaitTransactions,
     w\<lparr>hook := (hook w)\<lparr>isLoading := True, fetchRequested := True\<rparr>,
       store := setLoading True (store w),
       issued := issued w @ [GetTransactions (transactionLimit defaultLimit (store w))]\<rparr>)"
  using assms by (simp add: refreshData_def Let_def transactionLimit_setLoading)

lemma refreshData_guarded:
  assumes "isLoading captured \<or> fetchRequested captured"
  shows "refreshData defaultLimit captured w = (Returned, w)"
  using assms by (auto simp: refreshData_def)

text \<open>
  Claim C1, as the specification states it, fails: \<open>getTransactions\<close> is awaited
  first, and when it rejects the stats calls are never issued. With stats
  \<open>(100, 3, 1)\<close> in the store and an SDK that would answer \<open>(101, 4, 1)\<close>, the
  cycle ends with the old stats.
\<close>

theorem refreshCycle_transactions_rejected_counterexample:
  "stats (store (refreshCycle transactionsFailSdk 10 readyClosure exampleWorld)) =
     \<lparr>blockHeight = Some 100, epoch = Some 3, chainId = Some ''1''\<rparr> \<and>
   stats (store (refreshCycle transactionsFailSdk 10 readyClosure exampleWorld)) \<noteq>
     \<lparr>blockHeight = Some 101, epoch = Some 4, chainId = Some ''1''\<rparr> \<and>
   issued (refreshCycle transactionsFailSdk 10 readyClosure exampleWorld) = [GetTransactions 10]"
  by (simp add: refreshCycle_def refreshData_def readyClosure_def exampleWorld_def
      transactionsFailSdk_def transactionLimit_def catchBlock_def finallyBlock_def storeActions)

text \<open>
  Claim C1, amended. For a refresh cycle that passes the guards and in which
  \<open>getTransactions\<close> rejects, the cycle ends with the stats fields unchanged (the
  stats calls are not issued: \<open>getTransactions\<close> is the only SDK call), the
  transactions list unchanged, the error message recorded in the store's error field
  (the message of the \<open>Error\<close>, or \<open>Unknown error occurred\<close>), and the loading
  flags cleared.
\<close>

theorem refreshCycle_transactions_rejected:
  assumes "isInitialized captured" and "\<not> isLoading captured" and "\<not> fetchRequested captured"
    and "getTransactions sdk (transactionLimit defaultLimit (store w)) = RejectedWith err"
  shows "stats (store (refreshCycle sdk defaultLimit captured w)) = stats (store w) \<and>
         transactions (store (refreshCycle sdk defaultLimit captured w)) = transactions (store w) \<and>
         storeError (store (refreshCycle sdk defaultLimit captured w)) = Some (errorMessage err) \<and>
         issued (refreshCycle sdk defaultLimit captured w) =
           issued w @ [GetTransactions (transactionLimit defaultLimit (store w))] \<and>
         \<not> storeIsLoading (store (refreshCycle sdk defaultLimit captured w)) \<and>
         \<not> isLoading (hook (refreshCycle sdk defaultLimit captured w)) \<and>
         \<not> fetchRequested (hook (refreshCycle sdk defaultLimit captured w))"
proof -
  have "refreshCycle sdk defaultLimit captured w =
      finallyBlock (catchBlock err
        (w\<lparr>hook := (hook w)\<lparr>isLoading := True, fetchRequested := True\<rparr>,
           store := setLoading True (store w),
           issued := issued w @ [GetTransactions (transactionLimit defaultLimit (store w))]\<rparr>))"
    using assms(4)
    by (simp add: refreshCycle_def refreshData_proceeds [OF assms(1-3)]
        transactionLimit_setLoading)
  then show ?thesis
    by (simp add: finallyBlock_def catchBlock_def storeActions)
qed

theorem refreshCycle_transactions_rejected_witness:
  "isInitialized readyClosure \<and> \<not> isLoading readyClosure \<and> \<not> fetchRequested readyClosure \<and>
   getTransactions transactionsFailSdk (transactionLimit 10 (store exampleWorld)) =
     RejectedWith (ErrorObject ''Network Error'') \<and>
   stats (store (refreshCycle transactionsFailSdk 10 readyClosure exampleWorld)) =
     \<lparr>blockHeight = Some 100, epoch = Some 3, chainId = Some ''1''\<rparr> \<and>
   transactions (store (refreshCycle transactionsFailSdk 10 readyClosure exampleWorld)) = [7] \<and>
   storeError (store (refreshCycle transactionsFailSdk 10 readyClosure exampleWorld)) =
     Some ''Network Error''"
proof -
  have h1: "isInitialized readyClosure" and h2: "\<not> isLoading readyClosure"
    and h3: "\<not> fetchRequested readyClosure"
    by (simp_all add: readyClosure_def)
  have h4: "getTransactions transactionsFailSdk (transactionLimit 10 (store exampleWorld)) =
     RejectedWith (ErrorObject ''Network Error'')"
    by (simp add: transactionsFailSdk_def)
  have s: "stats (store exampleWorld) =
      \<lparr>blockHeight = Some 100, epoch = Some 3, chainId = Some ''1''\<rparr>"
    and t: "transactions (store exampleWorld) = [7]"
    by (simp_all add: exampleWorld_def)
  show ?thesis
    using refreshCycle_transactions_rejected [OF h1 h2 h3 h4] h1 h2 h3 h4 s t by simp
qed

text \<open>
  Claim C5. While one invocation of \<open>refreshData\<close> is outstanding, a second call
  should be a no-op that issues no SDK call and writes nothing to the store. The code
  does not achieve this for the calls made by the interval. The guard of
  \<open>refreshData\<close> reads the \<open>isLoading\<close> and \<open>fetchRequested\<close> that its
  closure captured, and the interval keeps the closure of the render in which
  \<open>isInitialized\<close> became true, where both are false. In the run below the interval
  is set, the first refresh is started (it is suspended at \<open>getTransactions\<close>, and
  both flags of the hook are now true), and a tick arrives: the tick passes the guard and
  issues a second \<open>getTransactions\<close>.
\<close>

theorem refreshData_tick_duplicate:
  "fst (refreshData 10 readyClosure (intervalEffect readyClosure exampleWorld)) = AwaitTransactions \<and>
   isLoading (hook (snd (refreshData 10 readyClosure (intervalEffect readyClosure exampleWorld)))) \<and>
   fetchRequested (hook (snd (refreshData 10 readyClosure (intervalEffect readyClosure exampleWorld)))) \<and>
   fst (tick 10 (snd (refreshData 10 readyClosure (intervalEffect readyClosure exampleWorld))))
     = AwaitTransactions \<and>
   issued (snd (tick 10 (snd (refreshData 10 readyClosure (intervalEffect readyClosure exampleWorld)))))
     = [GetTransactions 10, GetTransactions 10]"
  by (simp add: refreshData_def tick_def intervalEffect_def readyClosure_def exampleWorld_def
      transactionLimit_def setLoading_def)

text \<open>
  A call through a closure of a later render, which has captured the flags as the first
  call set them, is the no-op that the claim describes.
\<close>

lemma refreshData_fresh_closure_noop:
  assumes "fst (refreshData defaultLimit captured w) = AwaitTransactions"
  shows "refreshData defaultLimit (hook (snd (refreshData defaultLimit captured w)))
           (snd (refreshData defaultLimit captured w)) =
         (Returned, snd (refreshData defaultLimit captured w))"
proof -
  have "isLoading (hook (snd (refreshData defaultLimit captured w)))"
    using assms by (auto simp: refreshData_def Let_def split: if_splits)
  then show ?thesis by (simp add: refreshData_guarded)
qed

lemma allFulfilled_interval:
  "allFulfilled (ph, w\<lparr>interval := x\<rparr>) =
     apsnd (\<lambda>w. w\<lparr>interval := x\<rparr>) (allFulfilled (ph, w))"
  by (cases "(ph, w)" rule: allFulfilled.cases) (simp_all add: finallyBlock_def)

lemma resume_interval:
  "resume r (ph, w\<lparr>interval := x\<rparr>) = apsnd (\<lambda>w. w\<lparr>interval := x\<rparr>) (resume r (ph, w))"
  by (cases "(r, (ph, w))" rule: resume.cases)
     (simp_all add: catchBlock_def finallyBlock_def allFulfilled_interval)

text \<open>
  Claim C8, as the specification states it, fails: \<open>refreshData\<close> has no liveness
  check. In the run below the refresh is started, the consumer is unmounted while
  \<open>getTransactions\<close> is outstanding, and the response arrives: the store, which held
  the transaction list \<open>[7]\<close>, now holds the list of the late response.
\<close>

theorem unmount_late_response_counterexample:
  "transactions (store exampleWorld) = [7] \<and>
   fst (refreshData 10 readyClosure (intervalEffect readyClosure exampleWorld)) = AwaitTransactions \<and>
   transactions (store (snd
     (resume (TransactionsResponse (Fulfilled [42]))
        (apsnd unmount (refreshData 10 readyClosure (intervalEffect readyClosure exampleWorld))))))
     = [42]"
  by (simp add: refreshData_def unmount_def intervalEffect_def readyClosure_def exampleWorld_def
      transactionLimit_def setLoading_def setTransactions_def)

text \<open>
  Claim C8, amended. Unmounting the consumer of \<open>useBlockchain\<close> clears the interval,
  so that a later tick does nothing, and it does not cancel a call already issued; but
  \<open>refreshData\<close> has no liveness check, and a response that arrives after the unmount
  is applied to the store exactly as it is for a mounted consumer. In
  \<open>handleRefresh\<close> of the account screen the \<open>isMounted\<close> flag decides only
  whether the reset of the screen's own auto-refresh indicator is scheduled: when the
  screen is unmounted the screen state is left as it is.
\<close>

theorem unmount_keeps_late_response:
  "interval (unmount w) = None \<and>
   tick defaultLimit (unmount w) = (Returned, unmount w) \<and>
   issued (unmount w) = issued w \<and>
   resume r (ph, unmount w) = apsnd unmount (resume r (ph, w)) \<and>
   store (snd (resume r (ph, unmount w))) = store (snd (resume r (ph, w))) \<and>
   handleRefreshFinally (s\<lparr>isMounted := False\<rparr>) = s\<lparr>isMounted := False\<rparr> \<and>
   handleRefreshFinally (s\<lparr>isMounted := True\<rparr>) =
     s\<lparr>isMounted := True, pendingResets := Suc (pendingResets s)\<rparr>"
proof -
  have u: "unmount = (\<lambda>w::'a world. w\<lparr>interval := None\<rparr>)"
    by (simp add: fun_eq_iff unmount_def)
  have c: "resume r (ph, unmount w) = apsnd unmount (resume r (ph, w))"
    unfolding u by (rule resume_interval)
  have "store (snd (apsnd unmount (resume r (ph, w)))) = store (snd (resume r (ph, w)))"
    by (cases "resume r (ph, w)") (simp add: unmount_def)
  with c show ?thesis
    by (simp add: unmount_def tick_def handleRefreshFinally_def)
qed

lemma cycleInvariant_mono:
  "seen \<subseteq> seen' \<Longrightarrow> cycleInvariant old log n seen pw \<Longrightarrow> cycleInvariant old log n seen' pw"
  by (induction old log n seen pw rule: cycleInvariant.induct)
     (auto split: option.splits)

lemma allFulfilled_invariant:
  "cycleInvariant old log n seen (AwaitStats h e c, w) \<Longrightarrow>
   cycleInvariant old log n seen (allFulfilled (AwaitStats h e c, w))"
  by (cases h; cases e; cases c)
     (auto simp: finallyBlock_def storeActions)

lemma rejected_invariant:
  "stats (store w) = old \<Longrightarrow>
   issued w = log @ [GetTransactions n] \<or>
   issued w = log @ [GetTransactions n, GetLatestBlockHeight, GetLatestEpoch, GetChainId] \<Longrightarrow>
   cycleInvariant old log n seen (Returned, finallyBlock (catchBlock err w))"
  by (auto simp: finallyBlock_def catchBlock_def storeActions)

lemma resume_invariant:
  assumes "cycleInvariant old log n seen pw"
  shows "cycleInvariant old log n (insert r seen) (resume r pw)"
proof -
  have inv: "cycleInvariant old log n (insert r seen) pw"
    using assms by (rule cycleInvariant_mono [rotated]) auto
  show ?thesis
  proof (cases "(r, pw)" rule: resume.cases)
    case (1 list w)
    with inv show ?thesis by (simp add: storeActions)
  next
    case (2 err w)
    with inv show ?thesis by (simp add: finallyBlock_def catchBlock_def storeActions)
  next
    case (3 v e c w)
    with inv show ?thesis
      by (cases e; cases c) (auto simp: finallyBlock_def storeActions)
  next
    case (4 err e c w)
    with inv show ?thesis by (simp add: finallyBlock_def catchBlock_def storeActions)
  next
    case (5 v h c w)
    with inv show ?thesis
      by (cases h; cases c) (auto simp: finallyBlock_def storeActions)
  next
    case (6 err h c w)
    with inv show ?thesis by (simp add: finallyBlock_def catchBlock_def storeActions)
  next
    case (7 v h e w)
    with inv show ?thesis
      by (cases h; cases e) (auto simp: finallyBlock_def storeActions)
  next
    case (8 err h e w)
    with inv show ?thesis by (simp add: finallyBlock_def catchBlock_def storeActions)
  qed (use inv in simp_all)
qed

lemma deliver_invariant:
  "cycleInvariant old log n seen pw \<Longrightarrow>
   cycleInvariant old log n (seen \<union> set rs) (deliver rs pw)"
proof (induction rs arbitrary: pw seen)
  case Nil
  then show ?case by simp
next
  case (Cons r rs)
  have "cycleInvariant old log n (insert r seen \<union> set rs) (deliver rs (resume r pw))"
    by (rule Cons.IH) (rule resume_invariant [OF Cons.prems])
  then show ?case by simp
qed

lemma refreshData_invariant:
  "cycleInvariant (stats (store w)) (issued w) (transactionLimit defaultLimit (store w)) {}
     (refreshData defaultLimit captured w)"
  by (simp add: refreshData_def Let_def transactionLimit_def setLoading_def)

lemma cycleInvariant_stats:
  assumes "cycleInvariant old log n seen (ph, w)"
  shows "stats (store w) = old \<or>
    (\<exists>h e c. BlockHeightResponse (Fulfilled h) \<in> seen \<and>
             EpochResponse (Fulfilled e) \<in> seen \<and>
             ChainIdResponse (Fulfilled c) \<in> seen \<and>
             ph = Returned \<and>
             stats (store w) = \<lparr>blockHeight = Some h, epoch = Some e, chainId = Some c\<rparr>)"
  using assms by (cases ph) auto

lemma cycleInvariant_issued:
  assumes "cycleInvariant old log n seen (ph, w)"
  shows "issued w = log \<or> issued w = log @ [GetTransactions n] \<or>
    issued w = log @ [GetTransactions n, GetLatestBlockHeight, GetLatestEpoch, GetChainId]"
  using assms by (cases ph) auto

text \<open>
  Claim C6. Within one refresh cycle, whatever responses arrive and in whatever order,
  every state that the store goes through has either the stats of before the cycle or,
  once the cycle has returned, stats whose three fields are the block height, epoch and
  chain id that arrived in this cycle: \<open>setStats\<close> is called once, with all three,
  after \<open>Promise.all\<close> has all three. The three stats calls are issued together:
  the call log of the cycle has none of them or all three, never one or two.
\<close>

theorem refreshData_stats_not_torn:
  "(stats (store (snd (deliver rs (refreshData defaultLimit captured w)))) = stats (store w) \<or>
    (\<exists>h e c. BlockHeightResponse (Fulfilled h) \<in> set rs \<and>
             EpochResponse (Fulfilled e) \<in> set rs \<and>
             ChainIdResponse (Fulfilled c) \<in> set rs \<and>
             fst (deliver rs (refreshData defaultLimit captured w)) = Returned \<and>
             stats (store (snd (deliver rs (refreshData defaultLimit captured w)))) =
               \<lparr>blockHeight = Some h, epoch = Some e, chainId = Some c\<rparr>)) \<and>
   (issued (snd (deliver rs (refreshData defaultLimit captured w))) = issued w \<or>
    issued (snd (deliver rs (refreshData defaultLimit captured w))) =
      issued w @ [GetTransactions (transactionLimit defaultLimit (store w))] \<or>
    issued (snd (deliver rs (refreshData defaultLimit captured w))) =
      issued w @ [GetTransactions (transactionLimit defaultLimit (store w)),
                  GetLatestBlockHeight, GetLatestEpoch, GetChainId])"
proof -
  obtain ph w' where d: "deliver rs (refreshData defaultLimit captured w) = (ph, w')"
    by (cases "deliver rs (refreshData defaultLimit captured w)")
  have "cycleInvariant (stats (store w)) (issued w) (transactionLimit defaultLimit (store w))
      ({} \<union> set rs) (deliver rs (refreshData defaultLimit captured w))"
    by (rule deliver_invariant) (rule refreshData_invariant)
  then have inv: "cycleInvariant (stats (store w)) (issued w)
      (transactionLimit defaultLimit (store w)) (set rs) (ph, w')"
    by (simp add: d)
  show ?thesis
    using cycleInvariant_stats [OF inv] cycleInvariant_issued [OF inv]
    by (simp add: d)
qed

theorem refreshData_stats_not_torn_witness:
  "stats (store exampleWorld) = \<lparr>blockHeight = Some 100, epoch = Some 3, chainId = Some ''1''\<rparr> \<and>
   deliver [TransactionsResponse (Fulfilled [8, 9])] (refreshData 10 readyClosure exampleWorld) =
     (AwaitStats None None None,
      exampleWorld
        \<lparr>hook := \<lparr>isInitialized = True, isLoading = True, fetchRequested = True\<rparr>,
          store := (store exampleWorld)\<lparr>transactions := [8, 9], storeIsLoading := True\<rparr>,
          issued := [GetTransactions 10, GetLatestBlockHeight, GetLatestEpoch, GetChainId]\<rparr>) \<and>
   stats (store (snd (deliver
       [TransactionsResponse (Fulfilled [8, 9]), ChainIdResponse (Fulfilled ''1''),
        BlockHeightResponse (Fulfilled 101)]
       (refreshData 10 readyClosure exampleWorld)))) =
     \<lparr>blockHeight = Some 100, epoch = Some 3, chainId = Some ''1''\<rparr> \<and>
   stats (store (snd (deliver
       [TransactionsResponse (Fulfilled [8, 9]), ChainIdResponse (Fulfilled ''1''),
        BlockHeightResponse (Fulfilled 101), EpochResponse (Fulfilled 4)]
       (refreshData 10 readyClosure exampleWorld)))) =
     \<lparr>blockHeight = Some 101, epoch = Some 4, chainId = Some ''1''\<rparr>"
  using refreshData_stats_not_torn
    [of "[TransactionsResponse (Fulfilled [8, 9]), ChainIdResponse (Fulfilled ''1''),
          BlockHeightResponse (Fulfilled 101), EpochResponse (Fulfilled 4)]"
        10 readyClosure exampleWorld]
  by (simp add: refreshData_def readyClosure_def exampleWorld_def transactionLimit_def
      finallyBlock_def storeActions)

end
